theory Spec2Isabelle
  imports Complex_Main
begin

section \<open>Scene controller state (components/Scene.tsx)\<close>

text \<open>
  The controller is a React function component. Its state hooks are the fields of one
  record; every handler is a function from the state of the render it was created in to
  the state of the next render. JavaScript numbers are read as reals: the controller only
  stores and copies them.
\<close>

type_synonym RotationArray = "real \<times> real \<times> real"

text \<open>
  \<open>PresetName\<close> is a union of string literals. \<open>saveAsCustom\<close> accepts only
  \<open>'custom1' | 'custom2'\<close> and \<open>applyPreset\<close> only \<open>Exclude<PresetName, 'none'>\<close>;
  the three datatypes below are these three types.
\<close>

datatype CustomSlot = Custom1 | Custom2

datatype PresetKey = Front | Top | Side | Panels | Custom CustomSlot

datatype PresetName = Preset PresetKey | NoPreset

record CustomPresets =
  custom1 :: RotationArray
  custom2 :: RotationArray

record scene_state =
  modelRotation :: RotationArray
  activePreset :: PresetName
  customPresets :: CustomPresets
  panelList :: "string list"
  selectedPanel :: string
  panelRotations :: "string \<rightharpoonup> RotationArray"
  showPanelControls :: bool
  panelInfoRef :: "string list"

fun viewPresets :: "PresetKey \<Rightarrow> RotationArray" where
  "viewPresets Front = (0, 0, 0)"
| "viewPresets Top = (90, 0, 0)"
| "viewPresets Side = (0, 90, 0)"
| "viewPresets Panels = (30, 45, 15)"
| "viewPresets (Custom Custom1) = (0, 0, 0)"
| "viewPresets (Custom Custom2) = (0, 0, 0)"

text \<open>The initial values given to the state hooks and to the ref.\<close>

definition initial_state :: scene_state where
  "initial_state =
     \<lparr> modelRotation = (0, 0, 0),
       activePreset = Preset Front,
       customPresets = \<lparr> custom1 = (0, 0, 0), custom2 = (0, 0, 0) \<rparr>,
       panelList = [],
       selectedPanel = [],
       panelRotations = Map.empty,
       showPanelControls = False,
       panelInfoRef = [] \<rparr>"

text \<open>Reading and writing \<open>customPresets[presetName]\<close>.\<close>

fun customPreset :: "CustomPresets \<Rightarrow> CustomSlot \<Rightarrow> RotationArray" where
  "customPreset cp Custom1 = custom1 cp"
| "customPreset cp Custom2 = custom2 cp"

fun withCustomPreset :: "CustomPresets \<Rightarrow> CustomSlot \<Rightarrow> RotationArray \<Rightarrow> CustomPresets" where
  "withCustomPreset cp Custom1 r = cp\<lparr>custom1 := r\<rparr>"
| "withCustomPreset cp Custom2 r = cp\<lparr>custom2 := r\<rparr>"

text \<open>
  \<open>forEach\<close> over a list of panel names, storing \<open>[0, 0, 0]\<close> under each name in a
  record that starts empty. Both \<open>handlePanelsFound\<close> and \<open>resetAllPanelRotations\<close>
  build their new record this way. The record is a map over its own keys; the names stored
  in it come from discovery and are never names of members of \<open>Object.prototype\<close>.
\<close>

definition zeroRotations :: "string list \<Rightarrow> (string \<rightharpoonup> RotationArray)" where
  "zeroRotations panels = fold (\<lambda>panel m. m(panel \<mapsto> (0, 0, 0))) panels Map.empty"

definition handlePanelsFound :: "string list \<Rightarrow> scene_state \<Rightarrow> scene_state" where
  "handlePanelsFound panels s =
     s\<lparr> panelList := panels,
        panelInfoRef := panels,
        panelRotations := zeroRotations panels \<rparr>"

fun applyPreset :: "PresetKey \<Rightarrow> scene_state \<Rightarrow> scene_state" where
  "applyPreset (Custom slot) s =
     s\<lparr> modelRotation := customPreset (customPresets s) slot,
        activePreset := Preset (Custom slot) \<rparr>"
| "applyPreset presetName s =
     s\<lparr> modelRotation := viewPresets presetName,
        activePreset := Preset presetName \<rparr>"

definition saveAsCustom :: "CustomSlot \<Rightarrow> scene_state \<Rightarrow> scene_state" where
  "saveAsCustom presetName s =
     s\<lparr> customPresets := withCustomPreset (customPresets s) presetName (modelRotation s),
        activePreset := Preset (Custom presetName) \<rparr>"

definition resetAllPanelRotations :: "scene_state \<Rightarrow> scene_state" where
  "resetAllPanelRotations s = s\<lparr> panelRotations := zeroRotations (panelList s) \<rparr>"

section \<open>Loading saved state on mount (components/Scene.tsx)\<close>

text \<open>
  The values \<open>JSON.parse\<close> can return, with \<open>undefined\<close> added for the result of
  reading a property that is not there.
\<close>

datatype jsval =
    JUndefined
  | JNull
  | JBool bool
  | JNum real
  | JStr string
  | JArr "jsval list"
  | JObj "(string \<times> jsval) list"

datatype js_error = SyntaxError | TypeError

text \<open>The truth value JavaScript gives a value in a condition.\<close>

fun truthy :: "jsval \<Rightarrow> bool" where
  "truthy JUndefined = False"
| "truthy JNull = False"
| "truthy (JBool b) = b"
| "truthy (JNum n) = (n \<noteq> 0)"
| "truthy (JStr s) = (s \<noteq> [])"
| "truthy (JArr _) = True"
| "truthy (JObj _) = True"

text \<open>
  The property reads \<open>parsed.custom1\<close> and \<open>parsed.custom2\<close>: a TypeError on
  \<open>null\<close> and \<open>undefined\<close>, the stored value on an object that has the key, and
  \<open>undefined\<close> everywhere else (no number, boolean, string or array has a property of
  either name).
\<close>

fun getProp :: "jsval \<Rightarrow> string \<Rightarrow> js_error + jsval" where
  "getProp JUndefined k = Inl TypeError"
| "getProp JNull k = Inl TypeError"
| "getProp (JObj kvs) k = Inr (case map_of kvs k of None \<Rightarrow> JUndefined | Some v \<Rightarrow> v)"
| "getProp _ k = Inr JUndefined"

text \<open>\<open>try { body } catch (e) { handler }\<close>, with a thrown error as the left summand.\<close>

definition tryCatch :: "js_error + 'a \<Rightarrow> (js_error \<Rightarrow> js_error + 'a) \<Rightarrow> js_error + 'a" where
  "tryCatch body handler = (case body of Inl e \<Rightarrow> handler e | Inr r \<Rightarrow> Inr r)"

text \<open>
  \<open>JSON.parse\<close> belongs to the JavaScript runtime. It is a parameter of the model:
  a function that yields the parsed value, or \<open>None\<close> where \<open>JSON.parse\<close> throws.
\<close>

definition JSON_parse_or_throw :: "(string \<Rightarrow> jsval option) \<Rightarrow> string \<Rightarrow> js_error + jsval" where
  "JSON_parse_or_throw JSON_parse text =
     (case JSON_parse text of None \<Rightarrow> Inl SyntaxError | Some parsed \<Rightarrow> Inr parsed)"

text \<open>
  The result of \<open>JSON.parse\<close> has type \<open>any\<close> and the setters store it as it is.
  \<open>asCustomPresets\<close> and \<open>asPanelRotations\<close> stand for the stored value read at the
  declared type of the hook; they are parameters too, and nothing is assumed about them.
  The two functions below are the bodies of the two \<open>try\<close> blocks.
\<close>

definition parseCustomPresets ::
  "(string \<Rightarrow> jsval option) \<Rightarrow> (jsval \<Rightarrow> CustomPresets) \<Rightarrow> string \<Rightarrow> scene_state
     \<Rightarrow> js_error + scene_state"
where
  "parseCustomPresets JSON_parse asCustomPresets savedCustomPresets s =
     (case JSON_parse_or_throw JSON_parse savedCustomPresets of
        Inl e \<Rightarrow> Inl e
      | Inr parsed \<Rightarrow>
          (case getProp parsed ''custom1'' of
             Inl e \<Rightarrow> Inl e
           | Inr c1 \<Rightarrow>
               if truthy c1 then
                 (case getProp parsed ''custom2'' of
                    Inl e \<Rightarrow> Inl e
                  | Inr c2 \<Rightarrow>
                      if truthy c2 then Inr (s\<lparr>customPresets := asCustomPresets parsed\<rparr>)
                      else Inr s)
               else Inr s))"

definition parsePanelRotations ::
  "(string \<Rightarrow> jsval option) \<Rightarrow> (jsval \<Rightarrow> (string \<rightharpoonup> RotationArray)) \<Rightarrow> string \<Rightarrow> scene_state
     \<Rightarrow> js_error + scene_state"
where
  "parsePanelRotations JSON_parse asPanelRotations savedPanelRotations s =
     (case JSON_parse_or_throw JSON_parse savedPanelRotations of
        Inl e \<Rightarrow> Inl e
      | Inr parsed \<Rightarrow> Inr (s\<lparr>panelRotations := asPanelRotations parsed\<rparr>))"

text \<open>
  \<open>localStorage.getItem\<close> yields the stored string or \<open>null\<close>; the \<open>if\<close> around
  each \<open>try\<close> lets only a non-empty string through. Each \<open>catch\<close> writes to the
  console and goes on with the state as it was.
\<close>

definition loadCustomPresets ::
  "(string \<Rightarrow> jsval option) \<Rightarrow> (jsval \<Rightarrow> CustomPresets) \<Rightarrow> (string \<rightharpoonup> string) \<Rightarrow> scene_state
     \<Rightarrow> js_error + scene_state"
where
  "loadCustomPresets JSON_parse asCustomPresets localStorage s =
     (case localStorage ''issCustomViewPresets'' of
        None \<Rightarrow> Inr s
      | Some savedCustomPresets \<Rightarrow>
          if savedCustomPresets \<noteq> [] then
            tryCatch (parseCustomPresets JSON_parse asCustomPresets savedCustomPresets s)
              (\<lambda>e. Inr s)
          else Inr s)"

definition loadPanelRotations ::
  "(string \<Rightarrow> jsval option) \<Rightarrow> (jsval \<Rightarrow> (string \<rightharpoonup> RotationArray)) \<Rightarrow> (string \<rightharpoonup> string)
     \<Rightarrow> scene_state \<Rightarrow> js_error + scene_state"
where
  "loadPanelRotations JSON_parse asPanelRotations localStorage s =
     (case localStorage ''issPanelRotations'' of
        None \<Rightarrow> Inr s
      | Some savedPanelRotations \<Rightarrow>
          if savedPanelRotations \<noteq> [] then
            tryCatch (parsePanelRotations JSON_parse asPanelRotations savedPanelRotations s)
              (\<lambda>e. Inr s)
          else Inr s)"

definition loadEffect ::
  "(string \<Rightarrow> jsval option) \<Rightarrow> (jsval \<Rightarrow> CustomPresets) \<Rightarrow> (jsval \<Rightarrow> (string \<rightharpoonup> RotationArray))
     \<Rightarrow> (string \<rightharpoonup> string) \<Rightarrow> scene_state \<Rightarrow> js_error + scene_state"
where
  "loadEffect JSON_parse asCustomPresets asPanelRotations localStorage s =
     (case loadCustomPresets JSON_parse asCustomPresets localStorage s of
        Inl e \<Rightarrow> Inl e
      | Inr s' \<Rightarrow> loadPanelRotations JSON_parse asPanelRotations localStorage s')"

text \<open>A field of the parsed value can be read and its value counts as true.\<close>

definition fieldTruthy :: "jsval \<Rightarrow> string \<Rightarrow> bool" where
  "fieldTruthy parsed k = (case getProp parsed k of Inl e \<Rightarrow> False | Inr v \<Rightarrow> truthy v)"

section \<open>Model adapter: panel discovery (components/Model.tsx)\<close>

text \<open>
  An \<open>Object3D\<close> with the fields the component reads and writes:
  \<open>name\<close>, \<open>type\<close>, \<open>rotation\<close> and \<open>userData.originalRotation\<close>. The scene graph
  is given as the sequence of its objects in the order \<open>scene.traverse\<close> visits them;
  an object is identified by its position in that sequence, and a record of objects holds
  positions.
\<close>

record Euler =
  euler_x :: real
  euler_y :: real
  euler_z :: real

record Object3D =
  obj_name :: string
  obj_type :: string
  rotation :: Euler
  originalRotation :: "Euler option"

text \<open>
  Object names are strings of ASCII characters, on which \<open>toLowerCase\<close> changes the
  letters A to Z and nothing else. \<open>str_includes s pat\<close> is \<open>s.includes(pat)\<close>.
\<close>

definition lowerChar :: "char \<Rightarrow> char" where
  "lowerChar c =
     (let n = (of_char c :: nat) in if 65 \<le> n \<and> n \<le> 90 then char_of (n + 32) else c)"

definition toLowerCase :: "string \<Rightarrow> string" where
  "toLowerCase s = map lowerChar s"

fun str_includes :: "string \<Rightarrow> string \<Rightarrow> bool" where
  "str_includes [] pat = (pat = [])"
| "str_includes (c # cs) pat = (take (length pat) (c # cs) = pat \<or> str_includes cs pat)"

text \<open>The condition of the first traversal; \<open>object.name &&\<close> rules the empty name out.\<close>

definition isPanelName :: "string \<Rightarrow> bool" where
  "isPanelName nm =
     (nm \<noteq> [] \<and>
      (str_includes (toLowerCase nm) ''panel'' \<or>
       str_includes (toLowerCase nm) ''solar'' \<or>
       str_includes (toLowerCase nm) ''array'' \<or>
       str_includes (toLowerCase nm) ''wing''))"

text \<open>
  A JavaScript record with string keys is a list of key-value pairs in insertion order.
  \<open>assign kvs k v\<close> is \<open>kvs[k] = v\<close>: an existing key keeps its place and takes the
  new value, a new key goes to the end.
\<close>

fun assign :: "(string \<times> 'v) list \<Rightarrow> string \<Rightarrow> 'v \<Rightarrow> (string \<times> 'v) list" where
  "assign [] k v = [(k, v)]"
| "assign ((k', v') # kvs) k v = (if k' = k then (k, v) # kvs else (k', v') # assign kvs k v)"

text \<open>
  \<open>Object.keys\<close> lists the keys that are array indices (canonical decimal numerals
  below \<open>2^32 - 1 = 4294967295\<close>) first, in ascending numeric order, and then the other
  keys in insertion order. \<open>Object.entries\<close> follows the same order.
\<close>

definition isDigit :: "char \<Rightarrow> bool" where
  "isDigit c = (c \<in> set ''0123456789'')"

definition digitValue :: "char \<Rightarrow> nat" where
  "digitValue c = of_char c - 48"

definition decimalValue :: "string \<Rightarrow> nat" where
  "decimalValue s = foldl (\<lambda>acc c. 10 * acc + digitValue c) 0 s"

definition isArrayIndex :: "string \<Rightarrow> bool" where
  "isArrayIndex k =
     (k \<noteq> [] \<and> list_all isDigit k \<and> (k = ''0'' \<or> hd k \<noteq> CHR ''0'')
      \<and> decimalValue k < 4294967295)"

definition objectKeys :: "(string \<times> 'v) list \<Rightarrow> string list" where
  "objectKeys kvs =
     sort_key decimalValue (filter isArrayIndex (map fst kvs))
       @ filter (\<lambda>k. \<not> isArrayIndex k) (map fst kvs)"

definition objectEntries :: "(string \<times> 'v) list \<Rightarrow> (string \<times> 'v) list" where
  "objectEntries kvs = map (\<lambda>k. (k, the (map_of kvs k))) (objectKeys kvs)"

text \<open>The decimal numeral a template literal prints for a counter.\<close>

fun showNat :: "nat \<Rightarrow> string" where
  "showNat n =
     (if n < 10 then [''0123456789'' ! n]
      else showNat (n div 10) @ [''0123456789'' ! (n mod 10)])"

declare showNat.simps [simp del]

text \<open>
  The first traversal: every object with a panel-like name is stored under its name.
  The first argument is the position of the next object.
\<close>

fun findByName :: "nat \<Rightarrow> Object3D list \<Rightarrow> (string \<times> nat) list \<Rightarrow> (string \<times> nat) list" where
  "findByName i [] panels = panels"
| "findByName i (object # rest) panels =
     findByName (Suc i) rest
       (if isPanelName (obj_name object) then assign panels (obj_name object) i else panels)"

text \<open>
  The second traversal: every object of type \<open>'Mesh'\<close> is renamed to
  \<open>Panel_<panelCount>\<close>, the counter goes up by one, and the object is stored under its
  new name. The result is the scene with the new names together with the record.
\<close>

fun nameMeshes ::
  "nat \<Rightarrow> Object3D list \<Rightarrow> nat \<Rightarrow> (string \<times> nat) list \<Rightarrow> Object3D list \<times> (string \<times> nat) list"
where
  "nameMeshes i [] panelCount panels = ([], panels)"
| "nameMeshes i (object # rest) panelCount panels =
     (if obj_type object = ''Mesh'' then
        let object' = object\<lparr>obj_name := ''Panel_'' @ showNat panelCount\<rparr>;
            (rest', panels') =
               nameMeshes (Suc i) rest (Suc panelCount) (assign panels (obj_name object') i)
        in (object' # rest', panels')
      else
        let (rest', panels') = nameMeshes (Suc i) rest panelCount panels
        in (object # rest', panels'))"

text \<open>
  The discovery effect. \<open>setPanelObjects\<close> receives the very record the second
  traversal goes on to fill, so the \<open>panelObjects\<close> state is the record returned here.
  \<open>reportedPanels\<close> is the argument of the \<open>onPanelsFound\<close> call.
\<close>

definition discoverPanels :: "Object3D list \<Rightarrow> Object3D list \<times> (string \<times> nat) list" where
  "discoverPanels scene =
     (let panels = findByName 0 scene [] in
      if length (objectKeys panels) = 0 then nameMeshes 0 scene 0 panels
      else (scene, panels))"

definition reportedPanels :: "Object3D list \<Rightarrow> string list" where
  "reportedPanels scene = objectKeys (snd (discoverPanels scene))"

section \<open>Model adapter: panel rotation (components/Model.tsx)\<close>

text \<open>
  \<open>panelObjects\<close> is a plain object, so \<open>panelObjects[panelName]\<close> yields the stored
  panel for an own key, the inherited member for a name that every plain object inherits
  from \<open>Object.prototype\<close>, and \<open>undefined\<close> for any other name.
\<close>

definition objectPrototypeMembers :: "string list" where
  "objectPrototypeMembers =
     [''constructor'', ''__defineGetter__'', ''__defineSetter__'', ''hasOwnProperty'',
      ''__lookupGetter__'', ''__lookupSetter__'', ''isPrototypeOf'', ''propertyIsEnumerable'',
      ''toString'', ''valueOf'', ''__proto__'', ''toLocaleString'']"

datatype panel_lookup = PanelObject nat | InheritedMember | NotFound

definition lookupPanel :: "(string \<times> nat) list \<Rightarrow> string \<Rightarrow> panel_lookup" where
  "lookupPanel panelObjects panelName =
     (case map_of panelObjects panelName of
        Some i \<Rightarrow> PanelObject i
      | None \<Rightarrow> if panelName \<in> set objectPrototypeMembers then InheritedMember else NotFound)"

text \<open>
  \<open>MathUtils.degToRad\<close> belongs to the rendering library and is a parameter. The numbers
  are doubles, read as the reals they denote; the sum of two doubles is the rounded sum,
  which is a parameter as well (\<open>jsPlus\<close>), and nothing is assumed about either. The body
  of the \<open>forEach\<close> for one panel object: the original rotation is captured if it has
  not been captured before, and the rotation is set from it.
\<close>

definition rotatePanel ::
  "(real \<Rightarrow> real \<Rightarrow> real) \<Rightarrow> (real \<Rightarrow> real) \<Rightarrow> RotationArray \<Rightarrow> Object3D \<Rightarrow> Object3D"
where
  "rotatePanel jsPlus degToRad rot panel =
     (let original = (case originalRotation panel of
                        None \<Rightarrow> rotation panel
                      | Some saved \<Rightarrow> saved)
      in panel\<lparr> originalRotation := Some original,
                rotation := \<lparr> euler_x = jsPlus (euler_x original) (degToRad (fst rot)),
                              euler_y = jsPlus (euler_y original) (degToRad (fst (snd rot))),
                              euler_z = jsPlus (euler_z original) (degToRad (snd (snd rot))) \<rparr> \<rparr>)"

text \<open>
  One call of the \<open>forEach\<close> callback. An undefined \<open>panel\<close> is skipped by
  \<open>if (panel)\<close>. An inherited member is not undefined and has no \<open>userData\<close>, so
  reading \<open>panel.userData.originalRotation\<close> throws a TypeError.
\<close>

definition applyPanelRotation ::
  "(real \<Rightarrow> real \<Rightarrow> real) \<Rightarrow> (real \<Rightarrow> real) \<Rightarrow> (string \<times> nat) list \<Rightarrow> string \<times> RotationArray
     \<Rightarrow> Object3D list \<Rightarrow> js_error + Object3D list"
where
  "applyPanelRotation jsPlus degToRad panelObjects entry scene =
     (case lookupPanel panelObjects (fst entry) of
        NotFound \<Rightarrow> Inr scene
      | InheritedMember \<Rightarrow> Inl TypeError
      | PanelObject i \<Rightarrow> Inr (scene[i := rotatePanel jsPlus degToRad (snd entry) (scene ! i)]))"

text \<open>
  \<open>forEach\<close> over the entries. The objects are changed in place, so an error ends the
  loop and leaves the scene as the calls before it made it. The result is the scene
  together with the error that left the effect, if any.
\<close>

fun forEachEntry ::
  "('e \<Rightarrow> 's \<Rightarrow> js_error + 's) \<Rightarrow> 'e list \<Rightarrow> 's \<Rightarrow> 's \<times> js_error option"
where
  "forEachEntry callback [] scene = (scene, None)"
| "forEachEntry callback (entry # entries) scene =
     (case callback entry scene of
        Inl e \<Rightarrow> (scene, Some e)
      | Inr scene' \<Rightarrow> forEachEntry callback entries scene')"

definition applyPanelRotations ::
  "(real \<Rightarrow> real \<Rightarrow> real) \<Rightarrow> (real \<Rightarrow> real) \<Rightarrow> (string \<times> nat) list
     \<Rightarrow> (string \<times> RotationArray) list \<Rightarrow> Object3D list \<Rightarrow> Object3D list \<times> js_error option"
where
  "applyPanelRotations jsPlus degToRad panelObjects panelRotations' scene =
     (if length (objectKeys panelObjects) > 0
      then forEachEntry (applyPanelRotation jsPlus degToRad panelObjects)
             (objectEntries panelRotations') scene
      else (scene, None))"

section \<open>Notions used in the statements\<close>

text \<open>
  The four substrings, and what it is for a name to contain one of them when case is
  ignored: some segment of the name equals the substring once both are lower-cased.
\<close>

definition panelSubstrings :: "string list" where
  "panelSubstrings = [''panel'', ''solar'', ''array'', ''wing'']"

definition containsIgnoringCase :: "string \<Rightarrow> string \<Rightarrow> bool" where
  "containsIgnoringCase nm pat =
     (\<exists>pre w post. nm = pre @ w @ post \<and> toLowerCase w = toLowerCase pat)"

definition qualifies :: "string \<Rightarrow> bool" where
  "qualifies nm = (\<exists>pat \<in> set panelSubstrings. containsIgnoringCase nm pat)"

text \<open>Each element once, at the place where it first occurs.\<close>

definition firstOccurrences :: "'a list \<Rightarrow> 'a list" where
  "firstOccurrences xs = rev (remdups (rev xs))"

definition addKey :: "string list \<Rightarrow> string \<Rightarrow> string list" where
  "addKey ks k = (if k \<in> set ks then ks else ks @ [k])"

definition panelLabel :: "nat \<Rightarrow> string" where
  "panelLabel k = ''Panel_'' @ showNat k"

definition isMesh :: "Object3D \<Rightarrow> bool" where
  "isMesh object = (obj_type object = ''Mesh'')"

text \<open>The scene as the second traversal leaves it.\<close>

fun relabel :: "nat \<Rightarrow> Object3D list \<Rightarrow> Object3D list" where
  "relabel c [] = []"
| "relabel c (object # rest) =
     (if isMesh object then object\<lparr>obj_name := panelLabel c\<rparr> # relabel (Suc c) rest
      else object # relabel c rest)"

text \<open>
  Every entry of a record of objects is stored under the name of the object it refers to.
  Discovery builds its record so (\<open>panels[object.name] = object\<close>).
\<close>

definition keyedByName :: "(string \<times> nat) list \<Rightarrow> Object3D list \<Rightarrow> bool" where
  "keyedByName panelObjects scene =
     (\<forall>k i. map_of panelObjects k = Some i \<longrightarrow> i < length scene \<and> obj_name (scene ! i) = k)"

section \<open>Properties of the controller\<close>

lemma fold_zero_lookup:
  "fold (\<lambda>panel m. m(panel \<mapsto> z)) panels m0 =
     (\<lambda>q. if q \<in> set panels then Some z else m0 q)"
  by (induction panels arbitrary: m0) (auto simp: fun_eq_iff)

lemma zeroRotations_lookup:
  "zeroRotations panels = (\<lambda>q. if q \<in> set panels then Some (0, 0, 0) else None)"
  unfolding zeroRotations_def by (simp add: fold_zero_lookup)

lemma dom_zeroRotations: "dom (zeroRotations panels) = set panels"
  by (auto simp: zeroRotations_lookup dom_def)

text \<open>
  What the discovery callback establishes: it replaces the panel name list, and every
  delivered name is in the rotation map afterwards.
\<close>

lemma handlePanelsFound_initialises:
  "panelList (handlePanelsFound panels s) = panels
   \<and> dom (panelRotations (handlePanelsFound panels s)) = set panels"
  by (simp add: handlePanelsFound_def dom_zeroRotations)

text \<open>
  Claim C1: the discovery callback leaves the rotation entry of a panel that was already
  in the rotation map as it was. The code does not: a panel that is in the map at
  (45,0,0), as a slider or the load on mount leaves it, and is delivered again by the
  callback, is at (0,0,0) afterwards.
\<close>

theorem handlePanelsFound_discards_rotation:
  "panelRotations
      (initial_state\<lparr> panelList := [''SolarWingLeft''],
                      panelRotations := [''SolarWingLeft'' \<mapsto> (45, 0, 0)] \<rparr>)
      ''SolarWingLeft'' = Some (45, 0, 0)
   \<and> panelRotations (handlePanelsFound [''SolarWingLeft'']
      (initial_state\<lparr> panelList := [''SolarWingLeft''],
                      panelRotations := [''SolarWingLeft'' \<mapsto> (45, 0, 0)] \<rparr>))
      ''SolarWingLeft'' = Some (0, 0, 0)"
  by (simp add: handlePanelsFound_def zeroRotations_def)

text \<open>
  Claim C5: saving the current rotation into a custom slot and then applying that slot
  leaves the model rotation equal to the rotation that was current when it was saved.
\<close>

theorem save_then_apply_roundtrip:
  "modelRotation (applyPreset (Custom slot) (saveAsCustom slot s)) = modelRotation s"
  by (cases slot) (simp_all add: saveAsCustom_def)

theorem save_then_apply_roundtrip_witness:
  "modelRotation (applyPreset (Custom Custom2)
      (saveAsCustom Custom2 (initial_state\<lparr>modelRotation := (10, -20, 30)\<rparr>)))
    = (10, -20, 30)"
  using save_then_apply_roundtrip [of Custom2 "initial_state\<lparr>modelRotation := (10, -20, 30)\<rparr>"]
  by simp

text \<open>
  Claim C6: applying the same preset, fixed or custom, twice in a row gives the same
  state (model rotation, active preset and everything else) as applying it once.
\<close>

theorem applyPreset_idempotent:
  "applyPreset p (applyPreset p s) = applyPreset p s"
  by (induction p s rule: applyPreset.induct) simp_all

theorem applyPreset_idempotent_witness:
  "applyPreset Panels (applyPreset Panels initial_state) = applyPreset Panels initial_state
   \<and> modelRotation (applyPreset Panels (applyPreset Panels initial_state)) = (30, 45, 15)"
  using applyPreset_idempotent [of Panels initial_state] by simp

text \<open>
  Claim C7: resetting all panels puts every panel of the discovered panel list at
  (0,0,0) in the rotation map and changes neither the model rotation nor the two custom
  presets.
\<close>

theorem resetAllPanelRotations_effect:
  "(\<forall>panel \<in> set (panelList s).
      panelRotations (resetAllPanelRotations s) panel = Some (0, 0, 0))
   \<and> modelRotation (resetAllPanelRotations s) = modelRotation s
   \<and> customPresets (resetAllPanelRotations s) = customPresets s"
  by (simp add: resetAllPanelRotations_def zeroRotations_lookup)

theorem resetAllPanelRotations_effect_witness:
  "panelRotations (resetAllPanelRotations
      (initial_state\<lparr> panelList := [''SolarWingLeft''],
                      panelRotations := [''SolarWingLeft'' \<mapsto> (45, 0, 0)],
                      modelRotation := (90, 0, 0) \<rparr>)) ''SolarWingLeft'' = Some (0, 0, 0)
   \<and> modelRotation (resetAllPanelRotations
      (initial_state\<lparr> panelList := [''SolarWingLeft''],
                      panelRotations := [''SolarWingLeft'' \<mapsto> (45, 0, 0)],
                      modelRotation := (90, 0, 0) \<rparr>)) = (90, 0, 0)"
  using resetAllPanelRotations_effect
    [of "initial_state\<lparr> panelList := [''SolarWingLeft''],
                        panelRotations := [''SolarWingLeft'' \<mapsto> (45, 0, 0)],
                        modelRotation := (90, 0, 0) \<rparr>"]
  by simp

text \<open>
  Claim C10: after a reset the keys of the rotation map are exactly the names of the
  discovered panel list; an entry under any other name is gone from the map.
\<close>

theorem resetAllPanelRotations_domain:
  "dom (panelRotations (resetAllPanelRotations s)) = set (panelList s)
   \<and> (\<forall>panel. panel \<notin> set (panelList s) \<longrightarrow>
         panelRotations (resetAllPanelRotations s) panel = None)"
proof -
  have keys: "dom (panelRotations (resetAllPanelRotations s)) = set (panelList s)"
    by (simp add: resetAllPanelRotations_def dom_zeroRotations)
  have gone: "panelRotations (resetAllPanelRotations s) panel = None"
    if "panel \<notin> set (panelList s)" for panel
    using that by (simp add: resetAllPanelRotations_def zeroRotations_lookup)
  from keys gone show ?thesis by blast
qed

theorem resetAllPanelRotations_domain_witness:
  "dom (panelRotations (resetAllPanelRotations
      (initial_state\<lparr> panelList := [''SolarWingLeft''],
                      panelRotations := [''Ghost'' \<mapsto> (45, 0, 0)] \<rparr>))) = {''SolarWingLeft''}
   \<and> panelRotations (resetAllPanelRotations
      (initial_state\<lparr> panelList := [''SolarWingLeft''],
                      panelRotations := [''Ghost'' \<mapsto> (45, 0, 0)] \<rparr>)) ''Ghost'' = None"
  using resetAllPanelRotations_domain
    [of "initial_state\<lparr> panelList := [''SolarWingLeft''],
                        panelRotations := [''Ghost'' \<mapsto> (45, 0, 0)] \<rparr>"]
  by simp

section \<open>Properties of the load on mount\<close>

lemma loadCustomPresets_result:
  "loadCustomPresets JSON_parse asCustomPresets localStorage s =
     Inr (case localStorage ''issCustomViewPresets'' of
            None \<Rightarrow> s
          | Some text \<Rightarrow>
              (case JSON_parse text of
                 None \<Rightarrow> s
               | Some parsed \<Rightarrow>
                   if text \<noteq> [] \<and> fieldTruthy parsed ''custom1'' \<and> fieldTruthy parsed ''custom2''
                   then s\<lparr>customPresets := asCustomPresets parsed\<rparr> else s))"
  by (auto simp: loadCustomPresets_def parseCustomPresets_def JSON_parse_or_throw_def
      tryCatch_def fieldTruthy_def split: option.splits sum.splits)

lemma loadPanelRotations_result:
  "loadPanelRotations JSON_parse asPanelRotations localStorage s =
     Inr (case localStorage ''issPanelRotations'' of
            None \<Rightarrow> s
          | Some text \<Rightarrow>
              (case JSON_parse text of
                 None \<Rightarrow> s
               | Some parsed \<Rightarrow>
                   if text \<noteq> [] then s\<lparr>panelRotations := asPanelRotations parsed\<rparr> else s))"
  by (auto simp: loadPanelRotations_def parsePanelRotations_def JSON_parse_or_throw_def
      tryCatch_def split: option.splits sum.splits)

lemma loadEffect_result:
  "\<exists>s'. loadEffect JSON_parse asCustomPresets asPanelRotations localStorage s = Inr s'"
  by (simp add: loadEffect_def loadCustomPresets_result loadPanelRotations_result)

lemma loadEffect_customPresets:
  assumes "loadEffect JSON_parse asCustomPresets asPanelRotations localStorage s = Inr s'"
  shows "customPresets s' =
     (case localStorage ''issCustomViewPresets'' of
        None \<Rightarrow> customPresets s
      | Some saved \<Rightarrow>
          (case JSON_parse saved of
             None \<Rightarrow> customPresets s
           | Some parsed \<Rightarrow>
               if saved \<noteq> [] \<and> fieldTruthy parsed ''custom1'' \<and> fieldTruthy parsed ''custom2''
               then asCustomPresets parsed else customPresets s))"
  using assms
  by (auto simp: loadEffect_def loadCustomPresets_result loadPanelRotations_result
      split: option.splits)

lemma loadEffect_panelRotations:
  assumes "loadEffect JSON_parse asCustomPresets asPanelRotations localStorage s = Inr s'"
  shows "panelRotations s' =
     (case localStorage ''issPanelRotations'' of
        None \<Rightarrow> panelRotations s
      | Some saved \<Rightarrow>
          (case JSON_parse saved of
             None \<Rightarrow> panelRotations s
           | Some parsed \<Rightarrow>
               if saved \<noteq> [] then asPanelRotations parsed else panelRotations s))"
  using assms
  by (auto simp: loadEffect_def loadCustomPresets_result loadPanelRotations_result
      split: option.splits)

text \<open>
  Claim C8: when the text stored under the custom-preset key, or under the
  panel-rotation key, does not parse, the load ends normally (no error leaves the effect,
  whatever the storage holds) and the corresponding state keeps the value it had. On
  mount that value is the default: the rotation map stays empty, and the discovery
  callback puts every discovered panel at (0,0,0), whether it runs before the load or
  after it.
\<close>

theorem load_malformed_keeps_defaults:
  assumes "JSON_parse saved = None"
  shows "\<exists>s'. loadEffect JSON_parse asCustomPresets asPanelRotations localStorage s = Inr s'
     \<and> (localStorage ''issCustomViewPresets'' = Some saved \<longrightarrow>
          customPresets s' = customPresets s)
     \<and> (localStorage ''issPanelRotations'' = Some saved \<longrightarrow>
          panelRotations s' = panelRotations s
          \<and> (s = initial_state \<longrightarrow> panelRotations s' = Map.empty)
          \<and> (\<forall>panels s0. s = handlePanelsFound panels s0 \<longrightarrow>
                (\<forall>panel \<in> set panels. panelRotations s' panel = Some (0, 0, 0)))
          \<and> (\<forall>panels. \<forall>panel \<in> set panels.
                panelRotations (handlePanelsFound panels s') panel = Some (0, 0, 0)))"
proof -
  obtain s' where s': "loadEffect JSON_parse asCustomPresets asPanelRotations localStorage s = Inr s'"
    using loadEffect_result by blast
  have presets: "customPresets s' = customPresets s"
    if "localStorage ''issCustomViewPresets'' = Some saved"
    using that assms by (simp add: loadEffect_customPresets [OF s'])
  have rotations: "panelRotations s' = panelRotations s"
    if "localStorage ''issPanelRotations'' = Some saved"
    using that assms by (simp add: loadEffect_panelRotations [OF s'])
  have mount: "panelRotations s' = Map.empty"
    if "localStorage ''issPanelRotations'' = Some saved" "s = initial_state"
    using rotations [OF that(1)] that(2) by (simp add: initial_state_def)
  have before: "panelRotations s' panel = Some (0, 0, 0)"
    if "localStorage ''issPanelRotations'' = Some saved" "s = handlePanelsFound panels s0"
      "panel \<in> set panels" for panels s0 panel
    using rotations [OF that(1)] that(2,3) by (simp add: handlePanelsFound_def zeroRotations_lookup)
  have zero: "panelRotations (handlePanelsFound panels s') panel = Some (0, 0, 0)"
    if "panel \<in> set panels" for panels panel
    using that by (simp add: handlePanelsFound_def zeroRotations_lookup)
  from s' presets rotations mount before zero show ?thesis by blast
qed

theorem load_malformed_keeps_defaults_witness:
  \<open>\<exists>s'. loadEffect (\<lambda>saved. if saved = ''{}'' then Some (JObj []) else None)
            (\<lambda>v. \<lparr>custom1 = (1, 1, 1), custom2 = (2, 2, 2)\<rparr>) (\<lambda>v. Map.empty)
            [''issCustomViewPresets'' \<mapsto> ''{"custom1":[1,'',
             ''issPanelRotations'' \<mapsto> ''{"custom1":[1,'']
            initial_state = Inr s'
        \<and> customPresets s' = \<lparr>custom1 = (0, 0, 0), custom2 = (0, 0, 0)\<rparr>
        \<and> panelRotations s' = Map.empty
        \<and> panelRotations (handlePanelsFound [''SolarWingLeft''] s') ''SolarWingLeft''
            = Some (0, 0, 0)\<close>
  using load_malformed_keeps_defaults
    [of \<open>\<lambda>saved. if saved = ''{}'' then Some (JObj []) else None\<close> \<open>''{"custom1":[1,''\<close>
        \<open>\<lambda>v. \<lparr>custom1 = (1, 1, 1), custom2 = (2, 2, 2)\<rparr>\<close> \<open>\<lambda>v. Map.empty\<close>
        \<open>[''issCustomViewPresets'' \<mapsto> ''{"custom1":[1,'',
          ''issPanelRotations'' \<mapsto> ''{"custom1":[1,'']\<close>
        initial_state]
  by (fastforce simp: initial_state_def)

text \<open>
  Claim C9: when the stored custom-preset text parses, the parsed value replaces the
  custom presets exactly if its fields \<open>custom1\<close> and \<open>custom2\<close> can both be read and
  both count as true; otherwise, and in particular for an object that lacks one of the two
  keys, the custom presets stay as they were. When the stored panel-rotation text parses,
  the parsed value replaces the rotation map, whatever value it is. The empty string is
  not JSON text.
\<close>

theorem load_applies_parsed_values:
  assumes "JSON_parse [] = None"
  shows "\<exists>s'. loadEffect JSON_parse asCustomPresets asPanelRotations localStorage s = Inr s'
     \<and> (\<forall>saved parsed.
           localStorage ''issCustomViewPresets'' = Some saved \<and> JSON_parse saved = Some parsed \<longrightarrow>
             customPresets s' =
               (if fieldTruthy parsed ''custom1'' \<and> fieldTruthy parsed ''custom2''
                then asCustomPresets parsed else customPresets s)
             \<and> (\<forall>kvs. parsed = JObj kvs
                   \<and> (map_of kvs ''custom1'' = None \<or> map_of kvs ''custom2'' = None) \<longrightarrow>
                   customPresets s' = customPresets s))
     \<and> (\<forall>saved parsed.
           localStorage ''issPanelRotations'' = Some saved \<and> JSON_parse saved = Some parsed \<longrightarrow>
             panelRotations s' = asPanelRotations parsed)"
proof -
  obtain s' where s': "loadEffect JSON_parse asCustomPresets asPanelRotations localStorage s = Inr s'"
    using loadEffect_result by blast
  have nonempty: "saved \<noteq> []" if "JSON_parse saved = Some parsed" for saved parsed
    using that assms by auto
  have presets: "customPresets s' =
        (if fieldTruthy parsed ''custom1'' \<and> fieldTruthy parsed ''custom2''
         then asCustomPresets parsed else customPresets s)"
    if "localStorage ''issCustomViewPresets'' = Some saved" "JSON_parse saved = Some parsed"
    for saved parsed
    using that nonempty [OF that(2)] by (simp add: loadEffect_customPresets [OF s'])
  have missing: "customPresets s' = customPresets s"
    if "localStorage ''issCustomViewPresets'' = Some saved" "JSON_parse saved = Some parsed"
      "parsed = JObj kvs" "map_of kvs ''custom1'' = None \<or> map_of kvs ''custom2'' = None"
    for saved parsed kvs
  proof -
    from that(3,4) have "\<not> (fieldTruthy parsed ''custom1'' \<and> fieldTruthy parsed ''custom2'')"
      by (auto simp: fieldTruthy_def)
    with presets [OF that(1,2)] show ?thesis by simp
  qed
  have rotations: "panelRotations s' = asPanelRotations parsed"
    if "localStorage ''issPanelRotations'' = Some saved" "JSON_parse saved = Some parsed"
    for saved parsed
    using that nonempty [OF that(2)] by (simp add: loadEffect_panelRotations [OF s'])
  from s' presets missing rotations show ?thesis by blast
qed

theorem load_applies_parsed_values_witness:
  \<open>\<exists>s'. loadEffect
            (\<lambda>saved. if saved = ''{"custom1":[1,2,3]}''
                     then Some (JObj [(''custom1'', JArr [JNum 1, JNum 2, JNum 3])])
                     else if saved = ''7'' then Some (JNum 7) else None)
            (\<lambda>v. \<lparr>custom1 = (1, 2, 3), custom2 = (0, 0, 0)\<rparr>)
            (\<lambda>v. if v = JNum 7 then [''junk'' \<mapsto> (7, 7, 7)] else Map.empty)
            [''issCustomViewPresets'' \<mapsto> ''{"custom1":[1,2,3]}'', ''issPanelRotations'' \<mapsto> ''7'']
            initial_state = Inr s'
        \<and> customPresets s' = \<lparr>custom1 = (0, 0, 0), custom2 = (0, 0, 0)\<rparr>
        \<and> panelRotations s' = [''junk'' \<mapsto> (7, 7, 7)]\<close>
  using load_applies_parsed_values
    [of \<open>\<lambda>saved. if saved = ''{"custom1":[1,2,3]}''
                 then Some (JObj [(''custom1'', JArr [JNum 1, JNum 2, JNum 3])])
                 else if saved = ''7'' then Some (JNum 7) else None\<close>
        \<open>\<lambda>v. \<lparr>custom1 = (1, 2, 3), custom2 = (0, 0, 0)\<rparr>\<close>
        \<open>\<lambda>v. if v = JNum 7 then [''junk'' \<mapsto> (7, 7, 7)] else Map.empty\<close>
        \<open>[''issCustomViewPresets'' \<mapsto> ''{"custom1":[1,2,3]}'', ''issPanelRotations'' \<mapsto> ''7'']\<close>
        initial_state]
  by (fastforce simp: initial_state_def fieldTruthy_def)

section \<open>Properties of panel discovery\<close>

lemma str_includes_iff:
  "str_includes s pat \<longleftrightarrow> (\<exists>pre post. s = pre @ pat @ post)"
proof (induction s)
  case Nil
  then show ?case by auto
next
  case (Cons c cs)
  show ?case
  proof
    assume "str_includes (c # cs) pat"
    then consider "take (length pat) (c # cs) = pat" | "str_includes cs pat" by auto
    then show "\<exists>pre post. c # cs = pre @ pat @ post"
    proof cases
      case 1
      then have "c # cs = [] @ pat @ drop (length pat) (c # cs)"
        by (metis append_Nil append_take_drop_id)
      then show ?thesis by blast
    next
      case 2
      with Cons.IH obtain pre post where "cs = pre @ pat @ post" by blast
      then have "c # cs = (c # pre) @ pat @ post" by simp
      then show ?thesis by blast
    qed
  next
    assume "\<exists>pre post. c # cs = pre @ pat @ post"
    then obtain pre post where eq: "c # cs = pre @ pat @ post" by blast
    show "str_includes (c # cs) pat"
    proof (cases pre)
      case Nil
      with eq have "take (length pat) (c # cs) = pat" by simp
      then show ?thesis by simp
    next
      case (Cons d pre')
      with eq have "cs = pre' @ pat @ post" by simp
      with Cons.IH have "str_includes cs pat" by blast
      then show ?thesis by simp
    qed
  qed
qed

lemma str_includes_subset: "str_includes s pat \<Longrightarrow> set pat \<subseteq> set s"
  by (auto simp: str_includes_iff)

lemma lowerChar_digit: "isDigit c \<Longrightarrow> lowerChar c = c"
  by (auto simp: isDigit_def lowerChar_def)

lemma toLowerCase_digits: "list_all isDigit s \<Longrightarrow> toLowerCase s = s"
  by (induction s) (simp_all add: toLowerCase_def lowerChar_digit)

lemma isPanelName_not_digits: "isPanelName nm \<Longrightarrow> \<not> list_all isDigit nm"
proof
  assume m: "isPanelName nm" and d: "list_all isDigit nm"
  from d have low: "toLowerCase nm = nm" by (rule toLowerCase_digits)
  from m low consider "str_includes nm ''panel''" | "str_includes nm ''solar''"
    | "str_includes nm ''array''" | "str_includes nm ''wing''"
    by (auto simp: isPanelName_def)
  then have "\<exists>c \<in> set nm. \<not> isDigit c"
  proof cases
    case 1
    then have "CHR ''p'' \<in> set nm" using str_includes_subset by fastforce
    then show ?thesis by (rule bexI [rotated]) (simp add: isDigit_def)
  next
    case 2
    then have "CHR ''s'' \<in> set nm" using str_includes_subset by fastforce
    then show ?thesis by (rule bexI [rotated]) (simp add: isDigit_def)
  next
    case 3
    then have "CHR ''a'' \<in> set nm" using str_includes_subset by fastforce
    then show ?thesis by (rule bexI [rotated]) (simp add: isDigit_def)
  next
    case 4
    then have "CHR ''w'' \<in> set nm" using str_includes_subset by fastforce
    then show ?thesis by (rule bexI [rotated]) (simp add: isDigit_def)
  qed
  with d show False by (auto simp: list_all_iff)
qed

lemma isPanelName_not_index: "isPanelName nm \<Longrightarrow> \<not> isArrayIndex nm"
  using isPanelName_not_digits by (auto simp: isArrayIndex_def)

lemma objectKeys_no_index:
  "\<forall>k \<in> set (map fst kvs). \<not> isArrayIndex k \<Longrightarrow> objectKeys kvs = map fst kvs"
proof -
  assume a: "\<forall>k \<in> set (map fst kvs). \<not> isArrayIndex k"
  then have "filter isArrayIndex (map fst kvs) = []"
    by (simp add: filter_empty_conv)
  moreover from a have "filter (\<lambda>k. \<not> isArrayIndex k) (map fst kvs) = map fst kvs"
    by (simp add: filter_id_conv)
  ultimately show ?thesis by (simp add: objectKeys_def)
qed

lemma set_objectKeys: "set (objectKeys kvs) = fst ` set kvs"
  by (auto simp: objectKeys_def)

lemma length_objectKeys: "length (objectKeys kvs) = length kvs"
proof -
  have "length (filter isArrayIndex (map fst kvs))
        + length (filter (\<lambda>k. \<not> isArrayIndex k) (map fst kvs)) = length (map fst kvs)"
    by (rule sum_length_filter_compl)
  then show ?thesis by (simp add: objectKeys_def)
qed

lemma includes_lower_iff:
  "str_includes (toLowerCase nm) pat \<longleftrightarrow>
     (\<exists>pre w post. nm = pre @ w @ post \<and> toLowerCase w = pat)"
proof
  assume "str_includes (toLowerCase nm) pat"
  then obtain pre post where "map lowerChar nm = pre @ pat @ post"
    by (auto simp: str_includes_iff toLowerCase_def)
  then have "\<exists>a vs. nm = a @ vs \<and> pre = map lowerChar a \<and> pat @ post = map lowerChar vs"
    by (simp only: map_eq_append_conv)
  then obtain a vs where a: "nm = a @ vs" "map lowerChar vs = pat @ post"
    by metis
  from a(2) have "\<exists>b c. vs = b @ c \<and> pat = map lowerChar b \<and> post = map lowerChar c"
    by (simp only: map_eq_append_conv)
  then obtain b c where "vs = b @ c" "map lowerChar b = pat"
    by metis
  with a have "nm = a @ b @ c" "map lowerChar b = pat" by simp_all
  then show "\<exists>pre w post. nm = pre @ w @ post \<and> toLowerCase w = pat"
    unfolding toLowerCase_def by blast
next
  assume "\<exists>pre w post. nm = pre @ w @ post \<and> toLowerCase w = pat"
  then obtain pre w post where "nm = pre @ w @ post" "toLowerCase w = pat" by blast
  then have "toLowerCase nm = toLowerCase pre @ pat @ toLowerCase post"
    by (simp add: toLowerCase_def)
  then show "str_includes (toLowerCase nm) pat"
    unfolding str_includes_iff by blast
qed

lemma panelSubstrings_lower: "pat \<in> set panelSubstrings \<Longrightarrow> toLowerCase pat = pat"
  by (auto simp: panelSubstrings_def toLowerCase_def lowerChar_def)

lemma isPanelName_iff:
  "isPanelName nm \<longleftrightarrow> (\<exists>pat \<in> set panelSubstrings. containsIgnoringCase nm pat)"
proof -
  have ci: "containsIgnoringCase nm pat \<longleftrightarrow> str_includes (toLowerCase nm) pat"
    if "pat \<in> set panelSubstrings" for pat
    using that by (simp add: containsIgnoringCase_def includes_lower_iff panelSubstrings_lower)
  have ne: "nm \<noteq> []" if "pat \<in> set panelSubstrings" "str_includes (toLowerCase nm) pat" for pat
    using that by (auto simp: panelSubstrings_def toLowerCase_def)
  have "isPanelName nm \<longleftrightarrow> (\<exists>pat \<in> set panelSubstrings. str_includes (toLowerCase nm) pat)"
    using ne unfolding isPanelName_def by (auto simp: panelSubstrings_def)
  with ci show ?thesis by blast
qed

lemma keys_assign: "map fst (assign kvs k v) = addKey (map fst kvs) k"
  by (induction kvs k v rule: assign.induct) (auto simp: addKey_def)

lemma map_of_assign: "map_of (assign kvs k v) = (map_of kvs)(k \<mapsto> v)"
  by (induction kvs k v rule: assign.induct) (auto simp: fun_eq_iff)

lemma keys_findByName:
  "map fst (findByName i scene panels) =
     foldl addKey (map fst panels) (filter isPanelName (map obj_name scene))"
  by (induction scene arbitrary: i panels) (simp_all add: keys_assign)

lemma foldl_addKey:
  "distinct ks \<Longrightarrow> foldl addKey ks xs = firstOccurrences (ks @ xs)"
proof (induction xs rule: rev_induct)
  case Nil
  then show ?case by (simp add: firstOccurrences_def distinct_remdups_id)
next
  case (snoc x xs)
  then have "foldl addKey ks (xs @ [x]) = addKey (firstOccurrences (ks @ xs)) x" by simp
  also have "\<dots> = firstOccurrences (ks @ xs @ [x])"
    by (simp add: addKey_def firstOccurrences_def)
  finally show ?case by simp
qed

lemma findByName_no_match:
  "\<forall>object \<in> set scene. \<not> isPanelName (obj_name object) \<Longrightarrow> findByName i scene panels = panels"
  by (induction scene arbitrary: i) simp_all

lemma keys_findByName_match:
  "fst ` set (findByName i scene []) = {nm \<in> obj_name ` set scene. isPanelName nm}"
proof -
  have "set (map fst (findByName i scene [])) =
          set (firstOccurrences (filter isPanelName (map obj_name scene)))"
    by (simp add: keys_findByName foldl_addKey)
  then show ?thesis by (auto simp: firstOccurrences_def)
qed

lemma isPanelName_qualifies: "isPanelName nm = qualifies nm"
  by (simp add: isPanelName_iff qualifies_def)

lemma digitValue_nth: "n < 10 \<Longrightarrow> digitValue (''0123456789'' ! n) = n"
proof -
  assume "n < 10"
  then have "n \<in> {0, 1, 2, 3, 4, 5, 6, 7, 8, 9}" by auto
  then show ?thesis by (auto simp: digitValue_def)
qed

lemma decimalValue_snoc: "decimalValue (s @ [c]) = 10 * decimalValue s + digitValue c"
  by (simp add: decimalValue_def)

lemma decimalValue_showNat: "decimalValue (showNat n) = n"
proof (induction n rule: showNat.induct)
  case (1 n)
  show ?case
  proof (cases "n < 10")
    case True
    then have "showNat n = [''0123456789'' ! n]" by (subst showNat.simps) simp
    with True show ?thesis
      using decimalValue_snoc [of "[]" "''0123456789'' ! n"]
      by (simp add: digitValue_nth decimalValue_def)
  next
    case False
    then have eq: "showNat n = showNat (n div 10) @ [''0123456789'' ! (n mod 10)]"
      by (subst showNat.simps) simp
    from False "1.IH" have "decimalValue (showNat (n div 10)) = n div 10" by simp
    then show ?thesis by (simp add: eq decimalValue_snoc digitValue_nth)
  qed
qed

lemma showNat_inject: "showNat j = showNat k \<Longrightarrow> j = k"
  by (metis decimalValue_showNat)

lemma panelLabel_inject: "panelLabel j = panelLabel k \<longleftrightarrow> j = k"
  using showNat_inject by (auto simp: panelLabel_def)

lemma panelLabel_not_array_index: "\<not> isArrayIndex (panelLabel k)"
  by (simp add: panelLabel_def isArrayIndex_def isDigit_def)

lemma fst_nameMeshes: "fst (nameMeshes i scene c panels) = relabel c scene"
  by (induction scene arbitrary: i c panels)
     (simp_all add: isMesh_def panelLabel_def case_prod_beta Let_def)

lemma keys_nameMeshes:
  "\<forall>j \<ge> c. panelLabel j \<notin> fst ` set panels \<Longrightarrow>
   map fst (snd (nameMeshes i scene c panels)) =
     map fst panels @ map panelLabel [c ..< c + length (filter isMesh scene)]"
proof (induction scene arbitrary: i c panels)
  case Nil
  then show ?case by simp
next
  case (Cons object rest)
  show ?case
  proof (cases "isMesh object")
    case True
    let ?panels = "assign panels (panelLabel c) i"
    from Cons.prems have fresh: "panelLabel c \<notin> set (map fst panels)" by auto
    then have keys: "map fst ?panels = map fst panels @ [panelLabel c]"
      by (simp add: keys_assign addKey_def)
    have "\<forall>j \<ge> Suc c. panelLabel j \<notin> fst ` set ?panels"
    proof (intro allI impI)
      fix j assume j: "Suc c \<le> j"
      with Cons.prems have "panelLabel j \<notin> set (map fst panels)" by auto
      moreover from j have "panelLabel j \<noteq> panelLabel c" by (simp add: panelLabel_inject)
      ultimately have "panelLabel j \<notin> set (map fst ?panels)" by (simp add: keys)
      then show "panelLabel j \<notin> fst ` set ?panels" by simp
    qed
    then have "map fst (snd (nameMeshes (Suc i) rest (Suc c) ?panels)) =
        map fst ?panels @ map panelLabel [Suc c ..< Suc c + length (filter isMesh rest)]"
      by (rule Cons.IH)
    moreover have "snd (nameMeshes i (object # rest) c panels) =
        snd (nameMeshes (Suc i) rest (Suc c) ?panels)"
      using True by (simp add: isMesh_def panelLabel_def case_prod_beta Let_def)
    moreover have "length (filter isMesh (object # rest)) = Suc (length (filter isMesh rest))"
      using True by simp
    moreover have "[c ..< c + Suc (length (filter isMesh rest))] =
        c # [Suc c ..< c + Suc (length (filter isMesh rest))]"
      by (rule upt_conv_Cons) simp
    ultimately show ?thesis
      by (simp only: keys append_assoc append_Cons append_Nil list.map add_Suc add_Suc_right)
  next
    case False
    have "snd (nameMeshes i (object # rest) c panels) = snd (nameMeshes (Suc i) rest c panels)"
      using False by (simp add: isMesh_def case_prod_beta Let_def)
    with Cons.IH [OF Cons.prems] False show ?thesis by simp
  qed
qed

lemma discoverPanels_no_match:
  assumes "\<forall>object \<in> set scene. \<not> isPanelName (obj_name object)"
  shows "discoverPanels scene = nameMeshes 0 scene 0 []"
  using assms by (simp add: discoverPanels_def findByName_no_match length_objectKeys)

lemma discoverPanels_match:
  assumes "\<exists>object \<in> set scene. isPanelName (obj_name object)"
  shows "discoverPanels scene = (scene, findByName 0 scene [])"
proof -
  from assms have "fst ` set (findByName 0 scene []) \<noteq> {}"
    unfolding keys_findByName_match by auto
  then have "findByName 0 scene [] \<noteq> []" by auto
  then show ?thesis by (simp add: discoverPanels_def length_objectKeys)
qed

lemma reportedPanels_no_match:
  assumes "\<forall>object \<in> set scene. \<not> isPanelName (obj_name object)"
  shows "reportedPanels scene = map panelLabel [0 ..< length (filter isMesh scene)]"
proof -
  let ?panels = "snd (nameMeshes 0 scene 0 [])"
  have keys: "map fst ?panels = map panelLabel [0 ..< length (filter isMesh scene)]"
    using keys_nameMeshes [of 0 "[]" 0 scene] by simp
  then have "\<forall>k \<in> set (map fst ?panels). \<not> isArrayIndex k"
    by (auto simp: panelLabel_not_array_index)
  then have "objectKeys ?panels = map fst ?panels" by (rule objectKeys_no_index)
  with keys show ?thesis
    by (simp add: reportedPanels_def discoverPanels_no_match [OF assms])
qed

lemma reportedPanels_match:
  assumes "\<exists>object \<in> set scene. isPanelName (obj_name object)"
  shows "reportedPanels scene = firstOccurrences (filter isPanelName (map obj_name scene))"
proof -
  let ?panels = "findByName 0 scene []"
  have "\<forall>k \<in> set (map fst ?panels). \<not> isArrayIndex k"
    using keys_findByName_match [of 0 scene] isPanelName_not_index by auto
  then have "objectKeys ?panels = map fst ?panels" by (rule objectKeys_no_index)
  then show ?thesis
    by (simp add: reportedPanels_def discoverPanels_match [OF assms] keys_findByName foldl_addKey)
qed

lemma relabel_mesh_names:
  "map obj_name (filter isMesh (relabel c scene)) =
     map panelLabel [c ..< c + length (filter isMesh scene)]"
proof (induction scene arbitrary: c)
  case Nil
  then show ?case by simp
next
  case (Cons object rest)
  show ?case
  proof (cases "isMesh object")
    case True
    have "[c ..< c + Suc (length (filter isMesh rest))] =
        c # [Suc c ..< c + Suc (length (filter isMesh rest))]"
      by (rule upt_conv_Cons) simp
    moreover have "isMesh (object\<lparr>obj_name := panelLabel c\<rparr>)"
      using True by (simp add: isMesh_def)
    ultimately show ?thesis
      using True Cons.IH [of "Suc c"] by simp
  next
    case False
    with Cons.IH [of c] show ?thesis by simp
  qed
qed

text \<open>
  Claim C3: in a scene where no object name contains, ignoring case, any of the four
  substrings, discovery reports the names \<open>Panel_0\<close>, ..., \<open>Panel_(N-1)\<close> in this
  order, where N is the number of mesh objects; and the mesh objects, in traversal order,
  are the ones that now bear these names.
\<close>

theorem fallback_reports_synthetic_names:
  assumes "\<forall>object \<in> set scene. \<not> qualifies (obj_name object)"
  shows "reportedPanels scene = map panelLabel [0 ..< length (filter isMesh scene)]
     \<and> map obj_name (filter isMesh (fst (discoverPanels scene))) =
          map panelLabel [0 ..< length (filter isMesh scene)]"
proof -
  from assms have none: "\<forall>object \<in> set scene. \<not> isPanelName (obj_name object)"
    by (simp add: isPanelName_qualifies)
  then have "reportedPanels scene = map panelLabel [0 ..< length (filter isMesh scene)]"
    by (rule reportedPanels_no_match)
  moreover have "fst (discoverPanels scene) = relabel 0 scene"
    by (simp add: discoverPanels_no_match [OF none] fst_nameMeshes)
  then have "map obj_name (filter isMesh (fst (discoverPanels scene))) =
          map panelLabel [0 ..< length (filter isMesh scene)]"
    using relabel_mesh_names [of 0 scene] by simp
  ultimately show ?thesis by simp
qed

theorem fallback_reports_synthetic_names_witness:
  "reportedPanels
     [\<lparr>obj_name = ''Body'', obj_type = ''Mesh'',
       rotation = \<lparr>euler_x = 0, euler_y = 0, euler_z = 0\<rparr>, originalRotation = None\<rparr>,
      \<lparr>obj_name = ''Truss'', obj_type = ''Group'',
       rotation = \<lparr>euler_x = 0, euler_y = 0, euler_z = 0\<rparr>, originalRotation = None\<rparr>,
      \<lparr>obj_name = ''Dish'', obj_type = ''Mesh'',
       rotation = \<lparr>euler_x = 0, euler_y = 0, euler_z = 0\<rparr>, originalRotation = None\<rparr>]
   = [''Panel_0'', ''Panel_1'']"
proof -
  have names: "\<not> isPanelName ''Body''" "\<not> isPanelName ''Truss''" "\<not> isPanelName ''Dish''"
    by code_simp+
  have labels: "panelLabel 0 = ''Panel_0''" "panelLabel (Suc 0) = ''Panel_1''"
    by code_simp+
  show ?thesis
    using fallback_reports_synthetic_names
      [of "[\<lparr>obj_name = ''Body'', obj_type = ''Mesh'',
             rotation = \<lparr>euler_x = 0, euler_y = 0, euler_z = 0\<rparr>, originalRotation = None\<rparr>,
            \<lparr>obj_name = ''Truss'', obj_type = ''Group'',
             rotation = \<lparr>euler_x = 0, euler_y = 0, euler_z = 0\<rparr>, originalRotation = None\<rparr>,
            \<lparr>obj_name = ''Dish'', obj_type = ''Mesh'',
             rotation = \<lparr>euler_x = 0, euler_y = 0, euler_z = 0\<rparr>, originalRotation = None\<rparr>]"]
      names labels
    by (simp add: isPanelName_qualifies [symmetric] isMesh_def)
qed

text \<open>
  Claim C4 as stated fails: in a scene whose only object is a mesh named Body no name
  contains any of the four substrings, and yet the object is reported as a panel, under
  the name Panel_0 the fallback gives it.
\<close>

theorem reported_without_matching_name_counterexample:
  "map obj_name
     [\<lparr>obj_name = ''Body'', obj_type = ''Mesh'',
       rotation = \<lparr>euler_x = 0, euler_y = 0, euler_z = 0\<rparr>, originalRotation = None\<rparr>]
     = [''Body'']
   \<and> \<not> qualifies ''Body''
   \<and> snd (discoverPanels
     [\<lparr>obj_name = ''Body'', obj_type = ''Mesh'',
       rotation = \<lparr>euler_x = 0, euler_y = 0, euler_z = 0\<rparr>, originalRotation = None\<rparr>])
     = [(''Panel_0'', 0)]
   \<and> reportedPanels
     [\<lparr>obj_name = ''Body'', obj_type = ''Mesh'',
       rotation = \<lparr>euler_x = 0, euler_y = 0, euler_z = 0\<rparr>, originalRotation = None\<rparr>]
     = [''Panel_0'']"
proof -
  have "\<not> isPanelName ''Body''" by code_simp
  then have body: "\<not> qualifies ''Body''" by (simp add: isPanelName_qualifies)
  have stored: "snd (discoverPanels
     [\<lparr>obj_name = ''Body'', obj_type = ''Mesh'',
       rotation = \<lparr>euler_x = 0, euler_y = 0, euler_z = 0\<rparr>, originalRotation = None\<rparr>])
     = [(''Panel_0'', 0)]"
    by code_simp
  have reported: "reportedPanels
     [\<lparr>obj_name = ''Body'', obj_type = ''Mesh'',
       rotation = \<lparr>euler_x = 0, euler_y = 0, euler_z = 0\<rparr>, originalRotation = None\<rparr>]
     = [''Panel_0'']"
    by code_simp
  from body stored reported show ?thesis by simp
qed

text \<open>
  Claim C4, as amended: in every scene in which some object name contains, ignoring
  case, one of the four substrings, a name is reported exactly if an object of the scene
  bears it and it contains one of the four substrings, the report lists these names in
  traversal order, each once, and discovery renames no object; for the names Body,
  SolarWingLeft, SolarWingRight, Camera the report is SolarWingLeft, SolarWingRight.
\<close>

theorem reported_iff_qualifies_when_matched:
  "((\<exists>object \<in> set scene. qualifies (obj_name object)) \<longrightarrow>
       (\<forall>nm. nm \<in> set (reportedPanels scene) \<longleftrightarrow>
           (\<exists>object \<in> set scene. obj_name object = nm \<and> qualifies nm))
       \<and> reportedPanels scene = firstOccurrences (filter qualifies (map obj_name scene))
       \<and> fst (discoverPanels scene) = scene)
   \<and> (map obj_name scene = [''Body'', ''SolarWingLeft'', ''SolarWingRight'', ''Camera''] \<longrightarrow>
        reportedPanels scene = [''SolarWingLeft'', ''SolarWingRight''])"
proof -
  have q: "qualifies = isPanelName" by (simp add: fun_eq_iff isPanelName_qualifies)
  have ord: "reportedPanels scene = firstOccurrences (filter qualifies (map obj_name scene))"
    if "\<exists>object \<in> set scene. qualifies (obj_name object)"
    using that unfolding q by (rule reportedPanels_match)
  have rep: "nm \<in> set (reportedPanels scene) \<longleftrightarrow>
       (\<exists>object \<in> set scene. obj_name object = nm \<and> qualifies nm)"
    if "\<exists>object \<in> set scene. qualifies (obj_name object)" for nm
    unfolding ord [OF that] by (auto simp: firstOccurrences_def)
  have same: "fst (discoverPanels scene) = scene"
    if "\<exists>object \<in> set scene. qualifies (obj_name object)"
    using that unfolding q by (simp add: discoverPanels_match)
  have ex: "reportedPanels scene = [''SolarWingLeft'', ''SolarWingRight'']"
    if names: "map obj_name scene = [''Body'', ''SolarWingLeft'', ''SolarWingRight'', ''Camera'']"
  proof -
    have sel: "filter isPanelName [''Body'', ''SolarWingLeft'', ''SolarWingRight'', ''Camera'']
        = [''SolarWingLeft'', ''SolarWingRight'']"
      by code_simp
    have "''SolarWingLeft'' \<in> set (filter isPanelName (map obj_name scene))"
      unfolding names sel by simp
    then have "\<exists>object \<in> set scene. isPanelName (obj_name object)" by auto
    then have "reportedPanels scene = firstOccurrences (filter isPanelName (map obj_name scene))"
      by (rule reportedPanels_match)
    then show ?thesis unfolding names sel by (simp add: firstOccurrences_def)
  qed
  from ord rep same ex show ?thesis by blast
qed

theorem reported_iff_qualifies_when_matched_witness:
  "reportedPanels
     [\<lparr>obj_name = ''Body'', obj_type = ''Mesh'',
       rotation = \<lparr>euler_x = 0, euler_y = 0, euler_z = 0\<rparr>, originalRotation = None\<rparr>,
      \<lparr>obj_name = ''SolarWingLeft'', obj_type = ''Group'',
       rotation = \<lparr>euler_x = 0, euler_y = 0, euler_z = 0\<rparr>, originalRotation = None\<rparr>,
      \<lparr>obj_name = ''SolarWingRight'', obj_type = ''Group'',
       rotation = \<lparr>euler_x = 0, euler_y = 0, euler_z = 0\<rparr>, originalRotation = None\<rparr>,
      \<lparr>obj_name = ''Camera'', obj_type = ''PerspectiveCamera'',
       rotation = \<lparr>euler_x = 0, euler_y = 0, euler_z = 0\<rparr>, originalRotation = None\<rparr>]
     = [''SolarWingLeft'', ''SolarWingRight'']
   \<and> fst (discoverPanels
     [\<lparr>obj_name = ''Body'', obj_type = ''Mesh'',
       rotation = \<lparr>euler_x = 0, euler_y = 0, euler_z = 0\<rparr>, originalRotation = None\<rparr>,
      \<lparr>obj_name = ''SolarWingLeft'', obj_type = ''Group'',
       rotation = \<lparr>euler_x = 0, euler_y = 0, euler_z = 0\<rparr>, originalRotation = None\<rparr>,
      \<lparr>obj_name = ''SolarWingRight'', obj_type = ''Group'',
       rotation = \<lparr>euler_x = 0, euler_y = 0, euler_z = 0\<rparr>, originalRotation = None\<rparr>,
      \<lparr>obj_name = ''Camera'', obj_type = ''PerspectiveCamera'',
       rotation = \<lparr>euler_x = 0, euler_y = 0, euler_z = 0\<rparr>, originalRotation = None\<rparr>])
     = [\<lparr>obj_name = ''Body'', obj_type = ''Mesh'',
       rotation = \<lparr>euler_x = 0, euler_y = 0, euler_z = 0\<rparr>, originalRotation = None\<rparr>,
      \<lparr>obj_name = ''SolarWingLeft'', obj_type = ''Group'',
       rotation = \<lparr>euler_x = 0, euler_y = 0, euler_z = 0\<rparr>, originalRotation = None\<rparr>,
      \<lparr>obj_name = ''SolarWingRight'', obj_type = ''Group'',
       rotation = \<lparr>euler_x = 0, euler_y = 0, euler_z = 0\<rparr>, originalRotation = None\<rparr>,
      \<lparr>obj_name = ''Camera'', obj_type = ''PerspectiveCamera'',
       rotation = \<lparr>euler_x = 0, euler_y = 0, euler_z = 0\<rparr>, originalRotation = None\<rparr>]"
proof -
  let ?scene = "[\<lparr>obj_name = ''Body'', obj_type = ''Mesh'',
       rotation = \<lparr>euler_x = 0, euler_y = 0, euler_z = 0\<rparr>, originalRotation = None\<rparr>,
      \<lparr>obj_name = ''SolarWingLeft'', obj_type = ''Group'',
       rotation = \<lparr>euler_x = 0, euler_y = 0, euler_z = 0\<rparr>, originalRotation = None\<rparr>,
      \<lparr>obj_name = ''SolarWingRight'', obj_type = ''Group'',
       rotation = \<lparr>euler_x = 0, euler_y = 0, euler_z = 0\<rparr>, originalRotation = None\<rparr>,
      \<lparr>obj_name = ''Camera'', obj_type = ''PerspectiveCamera'',
       rotation = \<lparr>euler_x = 0, euler_y = 0, euler_z = 0\<rparr>, originalRotation = None\<rparr>]"
  have "qualifies ''SolarWingLeft''"
    unfolding isPanelName_qualifies [symmetric] by code_simp
  then have some: "\<exists>object \<in> set ?scene. qualifies (obj_name object)" by simp
  have names: "map obj_name ?scene = [''Body'', ''SolarWingLeft'', ''SolarWingRight'', ''Camera'']"
    by simp
  from reported_iff_qualifies_when_matched [of ?scene] some
  have "fst (discoverPanels ?scene) = ?scene" by blast
  moreover from reported_iff_qualifies_when_matched [of ?scene] names
  have "reportedPanels ?scene = [''SolarWingLeft'', ''SolarWingRight'']" by blast
  ultimately show ?thesis by simp
qed

section \<open>Properties of the panel rotation\<close>

lemma obj_name_rotatePanel [simp]:
  "obj_name (rotatePanel jsPlus degToRad rot panel) = obj_name panel"
  by (simp add: rotatePanel_def Let_def)

lemma names_list_update:
  "(map obj_name scene)[i := obj_name (scene ! i)] = map obj_name scene"
proof (cases "i < length scene")
  case True
  then have "obj_name (scene ! i) = map obj_name scene ! i" by simp
  then show ?thesis by (simp only: list_update_id)
next
  case False
  then have "length (map obj_name scene) \<le> i" by simp
  then show ?thesis by (rule list_update_beyond)
qed

lemma lookupPanel_own:
  "map_of panelObjects k = Some i \<Longrightarrow> lookupPanel panelObjects k = PanelObject i"
  by (simp add: lookupPanel_def)

lemma lookupPanel_PanelObject:
  "lookupPanel panelObjects k = PanelObject j \<Longrightarrow> map_of panelObjects k = Some j"
  by (auto simp: lookupPanel_def split: option.splits if_splits)

lemma lookupPanel_not_inherited:
  "k \<notin> set objectPrototypeMembers \<Longrightarrow> lookupPanel panelObjects k \<noteq> InheritedMember"
  by (auto simp: lookupPanel_def split: option.splits)

lemma applyPanelRotation_returns:
  assumes "fst entry \<notin> set objectPrototypeMembers"
  shows "\<exists>scene'. applyPanelRotation jsPlus degToRad panelObjects entry scene = Inr scene'"
  using lookupPanel_not_inherited [OF assms, of panelObjects]
  by (cases "lookupPanel panelObjects (fst entry)") (simp_all add: applyPanelRotation_def)

lemma names_applyPanelRotation:
  assumes "applyPanelRotation jsPlus degToRad panelObjects entry scene = Inr scene'"
  shows "map obj_name scene' = map obj_name scene"
proof (cases "lookupPanel panelObjects (fst entry)")
  case (PanelObject i)
  with assms have "scene' = scene[i := rotatePanel jsPlus degToRad (snd entry) (scene ! i)]"
    by (simp add: applyPanelRotation_def)
  then show ?thesis by (simp add: map_update names_list_update)
next
  case InheritedMember
  with assms show ?thesis by (simp add: applyPanelRotation_def)
next
  case NotFound
  with assms show ?thesis by (simp add: applyPanelRotation_def)
qed

lemma keyedByName_names:
  "map obj_name scene' = map obj_name scene \<Longrightarrow> keyedByName panelObjects scene
     \<Longrightarrow> keyedByName panelObjects scene'"
proof -
  assume eq: "map obj_name scene' = map obj_name scene" and k: "keyedByName panelObjects scene"
  from eq have len: "length scene' = length scene" by (metis length_map)
  have "obj_name (scene' ! i) = obj_name (scene ! i)" if "i < length scene" for i
    using that eq len by (metis nth_map)
  with k len show ?thesis by (simp add: keyedByName_def)
qed

lemma step_other:
  assumes "keyedByName panelObjects scene" "map_of panelObjects panelName = Some i"
    "fst entry \<noteq> panelName"
    "applyPanelRotation jsPlus degToRad panelObjects entry scene = Inr scene'"
  shows "scene' ! i = scene ! i"
proof (cases "lookupPanel panelObjects (fst entry)")
  case (PanelObject j)
  then have "map_of panelObjects (fst entry) = Some j" by (rule lookupPanel_PanelObject)
  with assms(1,2) have "obj_name (scene ! j) = fst entry" "obj_name (scene ! i) = panelName"
    by (simp_all add: keyedByName_def)
  with assms(3) have "j \<noteq> i" by auto
  with PanelObject assms(4) show ?thesis by (auto simp: applyPanelRotation_def)
next
  case InheritedMember
  with assms(4) show ?thesis by (simp add: applyPanelRotation_def)
next
  case NotFound
  with assms(4) show ?thesis by (simp add: applyPanelRotation_def)
qed

lemma forEach_others:
  assumes "keyedByName panelObjects scene" "map_of panelObjects panelName = Some i"
    "panelName \<notin> fst ` set entries"
  shows "fst (forEachEntry (applyPanelRotation jsPlus degToRad panelObjects) entries scene) ! i
           = scene ! i"
  using assms
proof (induction entries arbitrary: scene)
  case Nil
  then show ?case by simp
next
  case (Cons entry entries)
  show ?case
  proof (cases "applyPanelRotation jsPlus degToRad panelObjects entry scene")
    case (Inl e)
    then show ?thesis by simp
  next
    case (Inr scene')
    from Cons.prems have ne: "fst entry \<noteq> panelName" by auto
    have keyed: "keyedByName panelObjects scene'"
      using names_applyPanelRotation [OF Inr] Cons.prems(1) by (rule keyedByName_names)
    from Cons.prems have "panelName \<notin> fst ` set entries" by auto
    with keyed Cons.prems(2)
    have "fst (forEachEntry (applyPanelRotation jsPlus degToRad panelObjects) entries scene') ! i
            = scene' ! i"
      by (rule Cons.IH)
    also have "scene' ! i = scene ! i"
      using Cons.prems(1,2) ne Inr by (rule step_other)
    finally show ?thesis using Inr by simp
  qed
qed

lemma forEach_entry:
  assumes "keyedByName panelObjects scene" "map_of panelObjects panelName = Some i"
    "distinct (map fst entries)" "(panelName, rot) \<in> set entries"
    "\<forall>k \<in> set (takeWhile (\<lambda>k. k \<noteq> panelName) (map fst entries)).
        k \<notin> set objectPrototypeMembers"
  shows "fst (forEachEntry (applyPanelRotation jsPlus degToRad panelObjects) entries scene) ! i
           = rotatePanel jsPlus degToRad rot (scene ! i)"
  using assms
proof (induction entries arbitrary: scene)
  case Nil
  then show ?case by simp
next
  case (Cons entry entries)
  show ?case
  proof (cases "entry = (panelName, rot)")
    case True
    let ?scene = "scene[i := rotatePanel jsPlus degToRad rot (scene ! i)]"
    have step: "applyPanelRotation jsPlus degToRad panelObjects entry scene = Inr ?scene"
      using True Cons.prems(2) by (simp add: applyPanelRotation_def lookupPanel_own)
    have keyed: "keyedByName panelObjects ?scene"
      using names_applyPanelRotation [OF step] Cons.prems(1) by (rule keyedByName_names)
    from True Cons.prems(3) have "panelName \<notin> fst ` set entries" by auto
    with keyed Cons.prems(2)
    have "fst (forEachEntry (applyPanelRotation jsPlus degToRad panelObjects) entries ?scene) ! i
            = ?scene ! i"
      by (rule forEach_others)
    moreover from Cons.prems(1,2) have "i < length scene" by (simp add: keyedByName_def)
    then have "?scene ! i = rotatePanel jsPlus degToRad rot (scene ! i)" by simp
    ultimately show ?thesis using step by simp
  next
    case False
    with Cons.prems(4) have mem: "(panelName, rot) \<in> set entries" by auto
    then have "panelName \<in> fst ` set entries" by force
    with Cons.prems(3) have ne: "fst entry \<noteq> panelName" by auto
    with Cons.prems(5) have "fst entry \<notin> set objectPrototypeMembers" by simp
    then obtain scene' where
      step: "applyPanelRotation jsPlus degToRad panelObjects entry scene = Inr scene'"
      using applyPanelRotation_returns by blast
    have keyed: "keyedByName panelObjects scene'"
      using names_applyPanelRotation [OF step] Cons.prems(1) by (rule keyedByName_names)
    from Cons.prems(3) have dist: "distinct (map fst entries)" by simp
    from ne Cons.prems(5)
    have ahead: "\<forall>k \<in> set (takeWhile (\<lambda>k. k \<noteq> panelName) (map fst entries)).
        k \<notin> set objectPrototypeMembers"
      by simp
    have "fst (forEachEntry (applyPanelRotation jsPlus degToRad panelObjects) entries scene') ! i
            = rotatePanel jsPlus degToRad rot (scene' ! i)"
      using keyed Cons.prems(2) dist mem ahead by (rule Cons.IH)
    moreover have "scene' ! i = scene ! i"
      using Cons.prems(1,2) ne step by (rule step_other)
    ultimately show ?thesis using step by simp
  qed
qed

lemma forEach_completes:
  assumes "\<forall>k \<in> fst ` set entries. k \<notin> set objectPrototypeMembers"
  shows "snd (forEachEntry (applyPanelRotation jsPlus degToRad panelObjects) entries scene)
           = None"
  using assms
proof (induction entries arbitrary: scene)
  case Nil
  then show ?case by simp
next
  case (Cons entry entries)
  then have "fst entry \<notin> set objectPrototypeMembers" by simp
  then obtain scene' where
    step: "applyPanelRotation jsPlus degToRad panelObjects entry scene = Inr scene'"
    using applyPanelRotation_returns by blast
  from Cons.prems have "\<forall>k \<in> fst ` set entries. k \<notin> set objectPrototypeMembers" by simp
  then have "snd (forEachEntry (applyPanelRotation jsPlus degToRad panelObjects) entries scene')
           = None"
    by (rule Cons.IH)
  with step show ?case by simp
qed

lemma distinct_objectKeys: "distinct (map fst kvs) \<Longrightarrow> distinct (objectKeys kvs)"
  by (auto simp: objectKeys_def distinct_map)

lemma objectEntries_props:
  assumes "distinct (map fst kvs)"
  shows "distinct (map fst (objectEntries kvs))" and "set (objectEntries kvs) = set kvs"
proof -
  have "map fst (objectEntries kvs) = objectKeys kvs"
    by (simp add: objectEntries_def comp_def)
  with assms show "distinct (map fst (objectEntries kvs))"
    by (simp add: distinct_objectKeys)
  show "set (objectEntries kvs) = set kvs"
  proof
    show "set (objectEntries kvs) \<subseteq> set kvs"
    proof
      fix e assume "e \<in> set (objectEntries kvs)"
      then obtain k where k: "k \<in> fst ` set kvs" "e = (k, the (map_of kvs k))"
        by (auto simp: objectEntries_def set_objectKeys)
      then obtain v where "map_of kvs k = Some v"
        by (metis domD dom_map_of_conv_image_fst)
      with k show "e \<in> set kvs" by (simp add: map_of_SomeD)
    qed
    show "set kvs \<subseteq> set (objectEntries kvs)"
    proof
      fix e assume e: "e \<in> set kvs"
      with assms have "map_of kvs (fst e) = Some (snd e)" by simp
      moreover from e have "fst e \<in> set (objectKeys kvs)" by (simp add: set_objectKeys)
      ultimately show "e \<in> set (objectEntries kvs)"
        by (force simp: objectEntries_def)
    qed
  qed
qed

lemma findByName_keyed:
  assumes "keyedByName panels full" "drop i full = rest"
  shows "keyedByName (findByName i rest panels) full"
  using assms
proof (induction rest arbitrary: i panels)
  case Nil
  then show ?case by simp
next
  case (Cons object rest)
  from Cons.prems(2) have i: "i < length full"
    by (metis drop_all list.distinct(1) not_le)
  with Cons.prems(2) have at: "full ! i = object"
    by (metis Cons_nth_drop_Suc list.inject)
  from i Cons.prems(2) have rest: "drop (Suc i) full = rest"
    by (metis Cons_nth_drop_Suc list.inject)
  let ?panels = "if isPanelName (obj_name object) then assign panels (obj_name object) i else panels"
  have "keyedByName ?panels full"
    using Cons.prems(1) i at by (auto simp: keyedByName_def map_of_assign)
  then have "keyedByName (findByName (Suc i) rest ?panels) full"
    using rest by (rule Cons.IH)
  then show ?case by simp
qed

lemma nameMeshes_keyed:
  assumes "keyedByName panels pre" "i = length pre"
  shows "keyedByName (snd (nameMeshes i rest c panels)) (pre @ relabel c rest)"
  using assms
proof (induction rest arbitrary: i c panels pre)
  case Nil
  then show ?case by simp
next
  case (Cons object rest)
  show ?case
  proof (cases "isMesh object")
    case True
    let ?object = "object\<lparr>obj_name := panelLabel c\<rparr>"
    let ?panels = "assign panels (panelLabel c) i"
    have "keyedByName ?panels (pre @ [?object])"
      unfolding keyedByName_def
    proof (intro allI impI)
      fix k j assume kj: "map_of ?panels k = Some j"
      show "j < length (pre @ [?object]) \<and> obj_name ((pre @ [?object]) ! j) = k"
      proof (cases "k = panelLabel c")
        case True
        with kj have "j = length pre" using Cons.prems(2) by (simp add: map_of_assign)
        with True show ?thesis by simp
      next
        case False
        with kj have "map_of panels k = Some j" by (simp add: map_of_assign)
        with Cons.prems(1) have "j < length pre" "obj_name (pre ! j) = k"
          by (simp_all add: keyedByName_def)
        then show ?thesis by (simp add: nth_append)
      qed
    qed
    moreover have "Suc i = length (pre @ [?object])" using Cons.prems(2) by simp
    ultimately have "keyedByName (snd (nameMeshes (Suc i) rest (Suc c) ?panels))
        ((pre @ [?object]) @ relabel (Suc c) rest)"
      by (rule Cons.IH)
    moreover have "snd (nameMeshes i (object # rest) c panels) =
        snd (nameMeshes (Suc i) rest (Suc c) ?panels)"
      using True by (simp add: isMesh_def panelLabel_def case_prod_beta Let_def)
    ultimately show ?thesis using True by simp
  next
    case False
    have "keyedByName panels (pre @ [object])"
      unfolding keyedByName_def
    proof (intro allI impI)
      fix k j assume "map_of panels k = Some j"
      with Cons.prems(1) have "j < length pre" "obj_name (pre ! j) = k"
        by (simp_all add: keyedByName_def)
      then show "j < length (pre @ [object]) \<and> obj_name ((pre @ [object]) ! j) = k"
        by (simp add: nth_append)
    qed
    moreover have "Suc i = length (pre @ [object])" using Cons.prems(2) by simp
    ultimately have "keyedByName (snd (nameMeshes (Suc i) rest c panels))
        ((pre @ [object]) @ relabel c rest)"
      by (rule Cons.IH)
    moreover have "snd (nameMeshes i (object # rest) c panels) =
        snd (nameMeshes (Suc i) rest c panels)"
      using False by (simp add: isMesh_def case_prod_beta Let_def)
    ultimately show ?thesis using False by simp
  qed
qed

lemma discoverPanels_keyed:
  "keyedByName (snd (discoverPanels scene)) (fst (discoverPanels scene))"
proof (cases "\<exists>object \<in> set scene. isPanelName (obj_name object)")
  case True
  have "keyedByName (findByName 0 scene []) scene"
    by (rule findByName_keyed) (simp_all add: keyedByName_def)
  with True show ?thesis by (simp add: discoverPanels_match)
next
  case False
  then have none: "\<forall>object \<in> set scene. \<not> isPanelName (obj_name object)" by simp
  have "keyedByName (snd (nameMeshes 0 scene 0 [])) ([] @ relabel 0 scene)"
    by (rule nameMeshes_keyed) (simp_all add: keyedByName_def)
  then show ?thesis
    by (simp add: discoverPanels_no_match [OF none] fst_nameMeshes)
qed

text \<open>
  What the rotation effect establishes. Let a panel be discovered (discovery on the
  loaded asset stored it under its name in the record of panel objects), let the scene be
  the one discovery left, whatever rotations it has by now, let the panel's original
  rotation be captured, let a rotation be requested for the panel, and let no key that
  \<open>Object.entries\<close> lists before the panel's name be the name of an inherited member.
  Then each axis of the panel's rotation is the sum of the original value on that axis
  and the requested degrees converted by \<open>degToRad\<close>. When the conversion takes 0 to 0
  and adding 0 leaves the original Y and Z as they are, a request of 45 on X and 0 on Y
  and Z yields the original X plus the converted 45, with Y and Z at their original
  values. When no requested key at all is the name of an inherited member, no error
  leaves the effect.
\<close>

lemma panel_rotation_sets_axes:
  assumes discovery: "discoverPanels asset = (asset', panelObjects)"
    and same_objects: "map obj_name scene = map obj_name asset'"
    and discovered: "map_of panelObjects panelName = Some i"
    and captured: "originalRotation (scene ! i) = Some original"
    and keys: "distinct (map fst panelRotations')"
    and requested: "map_of panelRotations' panelName = Some (rx, ry, rz)"
    and ahead: "\<forall>k \<in> set (takeWhile (\<lambda>k. k \<noteq> panelName)
                              (map fst (objectEntries panelRotations'))).
                  k \<notin> set objectPrototypeMembers"
  shows "rotation (fst (applyPanelRotations jsPlus degToRad panelObjects panelRotations' scene) ! i) =
           \<lparr> euler_x = jsPlus (euler_x original) (degToRad rx),
             euler_y = jsPlus (euler_y original) (degToRad ry),
             euler_z = jsPlus (euler_z original) (degToRad rz) \<rparr>
         \<and> (degToRad 0 = 0 \<and> jsPlus (euler_y original) 0 = euler_y original
              \<and> jsPlus (euler_z original) 0 = euler_z original
              \<and> rx = 45 \<and> ry = 0 \<and> rz = 0 \<longrightarrow>
              rotation (fst (applyPanelRotations jsPlus degToRad panelObjects panelRotations' scene) ! i) =
                \<lparr> euler_x = jsPlus (euler_x original) (degToRad 45),
                  euler_y = euler_y original,
                  euler_z = euler_z original \<rparr>)
         \<and> ((\<forall>k \<in> fst ` set panelRotations'. k \<notin> set objectPrototypeMembers) \<longrightarrow>
              snd (applyPanelRotations jsPlus degToRad panelObjects panelRotations' scene) = None)"
proof -
  let ?entries = "objectEntries panelRotations'"
  let ?step = "applyPanelRotation jsPlus degToRad panelObjects"
  have "keyedByName panelObjects asset'"
    using discoverPanels_keyed [of asset] discovery by simp
  with same_objects have keyed: "keyedByName panelObjects scene"
    by (rule keyedByName_names)
  from discovered have "panelObjects \<noteq> []" by auto
  then have run: "applyPanelRotations jsPlus degToRad panelObjects panelRotations' scene =
      forEachEntry ?step ?entries scene"
    by (simp add: applyPanelRotations_def length_objectKeys)
  from requested have "(panelName, (rx, ry, rz)) \<in> set panelRotations'" by (rule map_of_SomeD)
  then have "(panelName, (rx, ry, rz)) \<in> set ?entries"
    by (simp add: objectEntries_props(2) [OF keys])
  with keyed discovered objectEntries_props(1) [OF keys]
  have "fst (forEachEntry ?step ?entries scene) ! i =
          rotatePanel jsPlus degToRad (rx, ry, rz) (scene ! i)"
    using ahead by (rule forEach_entry)
  with run captured
  have axes: "rotation (fst (applyPanelRotations jsPlus degToRad panelObjects panelRotations' scene) ! i) =
           \<lparr> euler_x = jsPlus (euler_x original) (degToRad rx),
             euler_y = jsPlus (euler_y original) (degToRad ry),
             euler_z = jsPlus (euler_z original) (degToRad rz) \<rparr>"
    by (simp add: rotatePanel_def)
  have completes: "snd (applyPanelRotations jsPlus degToRad panelObjects panelRotations' scene) = None"
    if "\<forall>k \<in> fst ` set panelRotations'. k \<notin> set objectPrototypeMembers"
  proof -
    from that have "\<forall>k \<in> fst ` set ?entries. k \<notin> set objectPrototypeMembers"
      by (simp add: objectEntries_props(2) [OF keys])
    then have "snd (forEachEntry ?step ?entries scene) = None" by (rule forEach_completes)
    with run show ?thesis by simp
  qed
  from axes completes show ?thesis by simp
qed

lemma panel_rotation_sets_axes_example:
  "rotation (fst (applyPanelRotations (+) ((*) (pi / 180))
      [(''SolarWingLeft'', 1), (''SolarWingRight'', 2)]
      [(''SolarWingLeft'', (45, 0, 0)), (''SolarWingRight'', (0, 90, 0))]
      [\<lparr>obj_name = ''Body'', obj_type = ''Mesh'',
        rotation = \<lparr>euler_x = 0, euler_y = 0, euler_z = 0\<rparr>, originalRotation = None\<rparr>,
       \<lparr>obj_name = ''SolarWingLeft'', obj_type = ''Mesh'',
        rotation = \<lparr>euler_x = 5, euler_y = 5, euler_z = 5\<rparr>,
        originalRotation = Some \<lparr>euler_x = 1, euler_y = 2, euler_z = 3\<rparr>\<rparr>,
       \<lparr>obj_name = ''SolarWingRight'', obj_type = ''Mesh'',
        rotation = \<lparr>euler_x = 0, euler_y = 0, euler_z = 0\<rparr>, originalRotation = None\<rparr>]) ! 1)
   = \<lparr>euler_x = 1 + pi / 180 * 45, euler_y = 2, euler_z = 3\<rparr>"
proof -
  let ?asset = "[\<lparr>obj_name = ''Body'', obj_type = ''Mesh'',
        rotation = \<lparr>euler_x = 0, euler_y = 0, euler_z = 0\<rparr>, originalRotation = None\<rparr>,
       \<lparr>obj_name = ''SolarWingLeft'', obj_type = ''Mesh'',
        rotation = \<lparr>euler_x = 1, euler_y = 2, euler_z = 3\<rparr>, originalRotation = None\<rparr>,
       \<lparr>obj_name = ''SolarWingRight'', obj_type = ''Mesh'',
        rotation = \<lparr>euler_x = 0, euler_y = 0, euler_z = 0\<rparr>, originalRotation = None\<rparr>]"
  let ?scene = "[\<lparr>obj_name = ''Body'', obj_type = ''Mesh'',
        rotation = \<lparr>euler_x = 0, euler_y = 0, euler_z = 0\<rparr>, originalRotation = None\<rparr>,
       \<lparr>obj_name = ''SolarWingLeft'', obj_type = ''Mesh'',
        rotation = \<lparr>euler_x = 5, euler_y = 5, euler_z = 5\<rparr>,
        originalRotation = Some \<lparr>euler_x = 1, euler_y = 2, euler_z = 3\<rparr>\<rparr>,
       \<lparr>obj_name = ''SolarWingRight'', obj_type = ''Mesh'',
        rotation = \<lparr>euler_x = 0, euler_y = 0, euler_z = 0\<rparr>, originalRotation = None\<rparr>]"
  let ?objects = "[(''SolarWingLeft'', 1::nat), (''SolarWingRight'', 2)]"
  let ?requests = "[(''SolarWingLeft'', (45::real, 0::real, 0::real)), (''SolarWingRight'', (0, 90, 0))]"
  have discovery: "discoverPanels ?asset = (?asset, ?objects)" by code_simp
  have same_objects: "map obj_name ?scene = map obj_name ?asset" by simp
  have discovered: "map_of ?objects ''SolarWingLeft'' = Some 1" by simp
  have captured: "originalRotation (?scene ! 1) = Some \<lparr>euler_x = 1, euler_y = 2, euler_z = 3\<rparr>"
    by simp
  have keys: "distinct (map fst ?requests)" by simp
  have requested: "map_of ?requests ''SolarWingLeft'' = Some (45, 0, 0)" by simp
  have entries: "objectEntries ?requests = ?requests" by code_simp
  have ahead: "\<forall>k \<in> set (takeWhile (\<lambda>k. k \<noteq> ''SolarWingLeft'')
                              (map fst (objectEntries ?requests))).
                  k \<notin> set objectPrototypeMembers"
    unfolding entries by simp
  show ?thesis
    using panel_rotation_sets_axes
      [OF discovery same_objects discovered captured keys requested ahead,
       of "(+)" "(*) (pi / 180)"]
    by simp
qed

text \<open>
  Claim C2: for every discovered panel with a captured original rotation and every
  requested rotation, applying the panel rotations sets each axis of the panel's rotation
  to the original value plus the converted request. The code does not do so for every
  record of requested rotations. Here the record lists the key \<open>constructor\<close> before
  the discovered panel \<open>SolarWingLeft\<close>, whose original rotation (1,2,3) is captured
  and for which (45,0,0) is requested: the lookup of \<open>constructor\<close> yields the member
  every plain object inherits, reading its \<open>userData.originalRotation\<close> throws a
  TypeError that leaves the effect, and the panel keeps the rotation (5,5,5) it had.
\<close>

theorem panel_rotation_inherited_key_throws:
  "discoverPanels
     [\<lparr>obj_name = ''Body'', obj_type = ''Mesh'',
       rotation = \<lparr>euler_x = 0, euler_y = 0, euler_z = 0\<rparr>, originalRotation = None\<rparr>,
      \<lparr>obj_name = ''SolarWingLeft'', obj_type = ''Mesh'',
       rotation = \<lparr>euler_x = 1, euler_y = 2, euler_z = 3\<rparr>, originalRotation = None\<rparr>]
     = ([\<lparr>obj_name = ''Body'', obj_type = ''Mesh'',
          rotation = \<lparr>euler_x = 0, euler_y = 0, euler_z = 0\<rparr>, originalRotation = None\<rparr>,
         \<lparr>obj_name = ''SolarWingLeft'', obj_type = ''Mesh'',
          rotation = \<lparr>euler_x = 1, euler_y = 2, euler_z = 3\<rparr>, originalRotation = None\<rparr>],
        [(''SolarWingLeft'', 1)])
   \<and> applyPanelRotations (+) ((*) (pi / 180))
       [(''SolarWingLeft'', 1)]
       [(''constructor'', (0, 0, 0)), (''SolarWingLeft'', (45, 0, 0))]
       [\<lparr>obj_name = ''Body'', obj_type = ''Mesh'',
         rotation = \<lparr>euler_x = 0, euler_y = 0, euler_z = 0\<rparr>, originalRotation = None\<rparr>,
        \<lparr>obj_name = ''SolarWingLeft'', obj_type = ''Mesh'',
         rotation = \<lparr>euler_x = 5, euler_y = 5, euler_z = 5\<rparr>,
         originalRotation = Some \<lparr>euler_x = 1, euler_y = 2, euler_z = 3\<rparr>\<rparr>]
     = ([\<lparr>obj_name = ''Body'', obj_type = ''Mesh'',
          rotation = \<lparr>euler_x = 0, euler_y = 0, euler_z = 0\<rparr>, originalRotation = None\<rparr>,
         \<lparr>obj_name = ''SolarWingLeft'', obj_type = ''Mesh'',
          rotation = \<lparr>euler_x = 5, euler_y = 5, euler_z = 5\<rparr>,
          originalRotation = Some \<lparr>euler_x = 1, euler_y = 2, euler_z = 3\<rparr>\<rparr>],
        Some TypeError)"
proof -
  have entries:
    "objectEntries [(''constructor'', (0::real, 0::real, 0::real)), (''SolarWingLeft'', (45, 0, 0))]
       = [(''constructor'', (0, 0, 0)), (''SolarWingLeft'', (45, 0, 0))]"
    by code_simp
  have discovery: "discoverPanels
     [\<lparr>obj_name = ''Body'', obj_type = ''Mesh'',
       rotation = \<lparr>euler_x = 0, euler_y = 0, euler_z = 0\<rparr>, originalRotation = None\<rparr>,
      \<lparr>obj_name = ''SolarWingLeft'', obj_type = ''Mesh'',
       rotation = \<lparr>euler_x = 1, euler_y = 2, euler_z = 3\<rparr>, originalRotation = None\<rparr>]
     = ([\<lparr>obj_name = ''Body'', obj_type = ''Mesh'',
          rotation = \<lparr>euler_x = 0, euler_y = 0, euler_z = 0\<rparr>, originalRotation = None\<rparr>,
         \<lparr>obj_name = ''SolarWingLeft'', obj_type = ''Mesh'',
          rotation = \<lparr>euler_x = 1, euler_y = 2, euler_z = 3\<rparr>, originalRotation = None\<rparr>],
        [(''SolarWingLeft'', 1)])"
    by code_simp
  show ?thesis
    unfolding discovery
    by (simp add: applyPanelRotations_def length_objectKeys entries applyPanelRotation_def
        lookupPanel_def objectPrototypeMembers_def)
qed

end
